theory Spec2Isabelle
  imports Complex_Main
begin

section \<open>Sports highlight recorder: data model\<close>

text \<open>
  The program is one class, \<^verbatim>\<open>SportsHighlightRecorder\<close> (src/main.py). Its instance
  attributes become the first fields of the record below. Everything the methods do
  to the outside (console output, sleeping, the files written by the video writer,
  the calls made on the video writer, GPIO) is recorded in the remaining fields, so
  that each method is a function from state to state.

  Time is a rational number of seconds. Python computes \<^verbatim>\<open>1.0 / self.FPS\<close> and
  \<^verbatim>\<open>frames_written / self.FPS\<close> in double precision; the model keeps the exact
  quotient.
\<close>

datatype error = ZeroDivisionError | OSError

text \<open>
  The console output of the methods modelled here, one constructor per message. The
  six lines printed after a successful save are the one message \<open>HighlightSaved\<close>,
  with the file name, the duration, the size in MB and the number of frames.
\<close>

datatype msg =
    GpioSetupComplete
  | WarnFailedRead
  | RecordingBuffer nat
  | ErrNoFrames
  | Saving nat string
  | ErrWriter
  | HighlightSaved string rat rat nat
  | StoppingRecording
  | RecordingStopped

text \<open>The calls made on \<^verbatim>\<open>cv2.VideoWriter\<close>: construction, \<^verbatim>\<open>write\<close>, \<^verbatim>\<open>release\<close>.\<close>

datatype 'f enc_call =
    EncOpen string nat "nat \<times> nat"
  | EncWrite 'f
  | EncRelease

record 'f recorder =
  BUTTON_PIN :: nat
  BUFFER_SECONDS :: nat
  FPS :: nat
  RESOLUTION :: "nat \<times> nat"
  HIGHLIGHTS_DIR :: string
  frame_buffer :: "('f \<times> rat) list"
  max_buffer_size :: nat
  recording :: bool
  camera :: "bool option"
  gpio_active :: bool
  clock :: rat
  console :: "msg list"
  sleeps :: "rat list"
  files :: "string \<rightharpoonup> 'f list"
  encoder_calls :: "'f enc_call list"

text \<open>
  \<^verbatim>\<open>camera\<close> is \<open>None\<close> for Python's \<^verbatim>\<open>None\<close>, \<open>Some True\<close> for an open capture and
  \<open>Some False\<close> for a released one. \<^verbatim>\<open>frame_buffer\<close> is the deque, oldest entry first;
  an entry is the pair \<^verbatim>\<open>(frame.copy(), timestamp)\<close>.
\<close>

text \<open>
  \<^verbatim>\<open>__init__\<close> (lines 16-34). \<^verbatim>\<open>setup_gpio\<close> registers the button callback and prints
  one line; \<^verbatim>\<open>os.makedirs\<close> leaves the files of the directory as they are, which is
  the parameter \<open>fs\<close>.
\<close>

definition init_recorder :: "(string \<rightharpoonup> 'f list) \<Rightarrow> 'f recorder" where
  "init_recorder fs =
     \<lparr> BUTTON_PIN = 2,
       BUFFER_SECONDS = 120,
       FPS = 15,
       RESOLUTION = (640, 480),
       HIGHLIGHTS_DIR = ''/home/enigma/sports-recorder/highlights'',
       frame_buffer = [],
       max_buffer_size = 120 * 15,
       recording = False,
       camera = None,
       gpio_active = True,
       clock = 0,
       console = [GpioSetupComplete],
       sleeps = [],
       files = fs,
       encoder_calls = [] \<rparr>"

section \<open>The capture loop\<close>

text \<open>
  Lines 115-119 of \<^verbatim>\<open>recording_loop\<close>: append the entry at the right end of the
  deque, then drop one entry from the left end if the length is above
  \<^verbatim>\<open>max_buffer_size\<close>. \<^verbatim>\<open>popleft\<close> runs right after an \<^verbatim>\<open>append\<close>, so the deque is
  never empty there.
\<close>

definition push_frame :: "'f recorder \<Rightarrow> 'f \<times> rat \<Rightarrow> 'f recorder" where
  "push_frame s e =
     (let s1 = s\<lparr>frame_buffer := frame_buffer s @ [e]\<rparr>
      in if length (frame_buffer s1) > max_buffer_size s1
         then s1\<lparr>frame_buffer := tl (frame_buffer s1)\<rparr>
         else s1)"

text \<open>\<open>N\<close> pushes in a row, first entry of the list first.\<close>

definition push_frames :: "'f recorder \<Rightarrow> ('f \<times> rat) list \<Rightarrow> 'f recorder" where
  "push_frames s es = foldl push_frame s es"

text \<open>
  What one \<^verbatim>\<open>self.camera.read()\<close> gives: the flag \<^verbatim>\<open>ret\<close>, the frame, and the time
  the call took.
\<close>

record 'f cam_read =
  ret :: bool
  frame :: 'f
  latency :: rat

text \<open>
  One run of the body of \<^verbatim>\<open>while self.recording\<close> (lines 105-126). The local
  variable \<^verbatim>\<open>frame_count\<close> travels with the state. A failed read prints the warning and
  goes on to the next iteration (\<^verbatim>\<open>continue\<close>), before the push and before the sleep.
  With \<^verbatim>\<open>FPS = 0\<close> the modulus on line 122 raises.
\<close>

definition recording_iter ::
  "'f recorder \<times> nat \<Rightarrow> 'f cam_read \<Rightarrow> error + 'f recorder \<times> nat" where
  "recording_iter sn r =
     (let s = fst sn; frame_count = snd sn;
          s1 = s\<lparr>clock := clock s + latency r\<rparr>
      in if \<not> ret r then Inr (s1\<lparr>console := console s1 @ [WarnFailedRead]\<rparr>, frame_count)
         else
           let timestamp = clock s1;
               s2 = push_frame s1 (frame r, timestamp);
               frame_count' = frame_count + 1
           in if FPS s2 * 10 = 0 then Inl ZeroDivisionError
              else
                let s3 = (if frame_count' mod (FPS s2 * 10) = 0
                          then s2\<lparr>console := console s2 @
                                    [RecordingBuffer (length (frame_buffer s2))]\<rparr>
                          else s2)
                in Inr (s3\<lparr>sleeps := sleeps s3 @ [1 / of_nat (FPS s3)],
                            clock := clock s3 + 1 / of_nat (FPS s3)\<rparr>, frame_count'))"

text \<open>
  \<^verbatim>\<open>recording_loop\<close> on the reads the camera delivers while the loop runs. The loop
  itself has no exit but the flag \<^verbatim>\<open>self.recording\<close>, tested before each read; an
  exception ends it.
\<close>

fun loop_from :: "'f recorder \<times> nat \<Rightarrow> 'f cam_read list \<Rightarrow> error + 'f recorder \<times> nat" where
  "loop_from sn [] = Inr sn"
| "loop_from sn (r # rs) =
     (if \<not> recording (fst sn) then Inr sn
      else case recording_iter sn r of
             Inl e \<Rightarrow> Inl e
           | Inr sn' \<Rightarrow> loop_from sn' rs)"

definition recording_loop :: "'f recorder \<Rightarrow> 'f cam_read list \<Rightarrow> error + 'f recorder \<times> nat" where
  "recording_loop s rs = loop_from (s, 0) rs"

section \<open>Saving a highlight\<close>

text \<open>\<^verbatim>\<open>datetime.now()\<close>: the wall-clock time, with its sub-second part.\<close>

record datetime =
  year :: nat
  month :: nat
  day :: nat
  hour :: nat
  minute :: nat
  second :: nat
  microsecond :: nat

definition digit :: "nat \<Rightarrow> char" where
  "digit n = ''0123456789'' ! (n mod 10)"

definition pad2 :: "nat \<Rightarrow> string" where
  "pad2 n = [digit (n div 10), digit n]"

definition pad4 :: "nat \<Rightarrow> string" where
  "pad4 n = [digit (n div 1000), digit (n div 100), digit (n div 10), digit n]"

text \<open>
  \<^verbatim>\<open>strftime("%Y%m%d_%H%M%S")\<close>: year in four digits, then month, day, hour, minute and
  second in two digits each, for the values a \<^verbatim>\<open>datetime\<close> holds from the year 1000
  on. The microseconds are not printed.
\<close>

definition strftime_stamp :: "datetime \<Rightarrow> string" where
  "strftime_stamp d =
     pad4 (year d) @ pad2 (month d) @ pad2 (day d) @ ''_'' @
     pad2 (hour d) @ pad2 (minute d) @ pad2 (second d)"

text \<open>Line 144: \<^verbatim>\<open>f"highlight_{timestamp}.avi"\<close>.\<close>

definition highlight_filename :: "datetime \<Rightarrow> string" where
  "highlight_filename d = ''highlight_'' @ strftime_stamp d @ ''.avi''"

text \<open>\<^verbatim>\<open>os.path.join\<close> of a directory and one more component, on POSIX.\<close>

definition path_join :: "string \<Rightarrow> string \<Rightarrow> string" where
  "path_join a b =
     (if b \<noteq> [] \<and> hd b = CHR ''/'' then b
      else if a = [] \<or> last a = CHR ''/'' then a @ b
      else a @ ''/'' @ b)"

definition highlight_filepath :: "'f recorder \<Rightarrow> datetime \<Rightarrow> string" where
  "highlight_filepath s d = path_join (HIGHLIGHTS_DIR s) (highlight_filename d)"

text \<open>
  What \<^verbatim>\<open>save_highlight\<close> meets outside the program: the wall-clock time, whether the
  video writer opens (\<^verbatim>\<open>out.isOpened()\<close>), whether the \<open>i\<close>-th call of \<^verbatim>\<open>out.write\<close>
  (counted from 0) puts its frame into the file (\<^verbatim>\<open>write\<close> returns nothing, a frame
  the writer cannot encode or store is dropped without notice), and the size in bytes
  of a file holding given frames (\<^verbatim>\<open>os.path.getsize\<close>).
\<close>

record 'f save_env =
  now_dt :: datetime
  writer_opens :: bool
  write_stores :: "nat \<Rightarrow> bool"
  encoded_size :: "'f list \<Rightarrow> nat"

text \<open>\<^verbatim>\<open>list(self.frame_buffer)\<close> (line 159): a copy of the deque, oldest entry first.\<close>

definition snapshot :: "'f recorder \<Rightarrow> ('f \<times> rat) list" where
  "snapshot s = frame_buffer s"

text \<open>
  The loop of lines 159-161 over the snapshot: each entry's frame goes to
  \<^verbatim>\<open>out.write\<close>, and \<^verbatim>\<open>frames_written\<close> counts the calls. The writer was opened on
  the path \<open>p\<close>, the final name of the file.
\<close>

fun write_frames ::
  "'f save_env \<Rightarrow> string \<Rightarrow> 'f recorder \<times> nat \<Rightarrow> ('f \<times> rat) list \<Rightarrow> 'f recorder \<times> nat" where
  "write_frames env p (s, frames_written) [] = (s, frames_written)"
| "write_frames env p (s, frames_written) ((fr, timestamp) # rest) =
     write_frames env p
       (s\<lparr>encoder_calls := encoder_calls s @ [EncWrite fr],
          files := (if write_stores env frames_written
                    then (files s)(p \<mapsto> (case files s p of None \<Rightarrow> [] | Some c \<Rightarrow> c) @ [fr])
                    else files s)\<rparr>,
        frames_written + 1)
       rest"

text \<open>
  \<^verbatim>\<open>save_highlight\<close> (lines 136-174). An empty buffer prints the error and returns. The
  writer is constructed on the final path; if it did not open, the error is printed
  and the method returns. Otherwise every frame of the snapshot is written, the
  writer is released, the size of the file is read and the duration is
  \<^verbatim>\<open>frames_written / self.FPS\<close>.
\<close>

definition save_highlight :: "'f recorder \<Rightarrow> 'f save_env \<Rightarrow> error + 'f recorder" where
  "save_highlight s env =
     (if length (frame_buffer s) = 0
      then Inr (s\<lparr>console := console s @ [ErrNoFrames]\<rparr>)
      else
        let filename = highlight_filename (now_dt env);
            filepath = path_join (HIGHLIGHTS_DIR s) filename;
            s1 = s\<lparr>console := console s @ [Saving (length (frame_buffer s)) filename]\<rparr>;
            s2 = s1\<lparr>encoder_calls :=
                      encoder_calls s1 @ [EncOpen filepath (FPS s1) (RESOLUTION s1)]\<rparr>
        in if \<not> writer_opens env
           then Inr (s2\<lparr>console := console s2 @ [ErrWriter]\<rparr>)
           else
             let s3 = s2\<lparr>files := (files s2)(filepath \<mapsto> [])\<rparr>;
                 w = write_frames env filepath (s3, 0) (snapshot s3);
                 s4 = fst w; frames_written = snd w;
                 s5 = s4\<lparr>encoder_calls := encoder_calls s4 @ [EncRelease]\<rparr>
             in case files s5 filepath of
                  None \<Rightarrow> Inl OSError
                | Some content \<Rightarrow>
                    let file_size = of_nat (encoded_size env content) / (1024 * 1024)
                    in if FPS s5 = 0 then Inl ZeroDivisionError
                       else
                         let duration = of_nat frames_written / of_nat (FPS s5)
                         in Inr (s5\<lparr>console := console s5 @
                                   [HighlightSaved filename duration file_size
                                      frames_written]\<rparr>))"

text \<open>
  \<^verbatim>\<open>stop_recording\<close> (lines 176-185): clear the flag, release the camera if there is
  one, clean up GPIO.
\<close>

definition stop_recording :: "'f recorder \<Rightarrow> 'f recorder" where
  "stop_recording s =
     (let s1 = s\<lparr>console := console s @ [StoppingRecording]\<rparr>;
          s2 = s1\<lparr>recording := False\<rparr>;
          s3 = (case camera s2 of None \<Rightarrow> s2 | Some c \<Rightarrow> s2\<lparr>camera := Some False\<rparr>);
          s4 = s3\<lparr>gpio_active := False\<rparr>
      in s4\<lparr>console := console s4 @ [RecordingStopped]\<rparr>)"

text \<open>
  The frames that reach the file when the calls of \<^verbatim>\<open>out.write\<close> are numbered from
  \<open>k\<close>: those of the calls the writer stores.
\<close>

fun stored_frames :: "'f save_env \<Rightarrow> nat \<Rightarrow> ('f \<times> rat) list \<Rightarrow> 'f list" where
  "stored_frames env k [] = []"
| "stored_frames env k (e # es) =
     (if write_stores env k then [fst e] else []) @ stored_frames env (Suc k) es"

text \<open>Running one step after another; an exception ends the run.\<close>

definition and_then :: "error + 'a \<Rightarrow> ('a \<Rightarrow> error + 'b) \<Rightarrow> error + 'b" where
  "and_then r f = (case r of Inl e \<Rightarrow> Inl e | Inr x \<Rightarrow> f x)"

section \<open>The frame buffer keeps the most recent frames\<close>

lemma push_frame_buffer:
  "frame_buffer (push_frame s e) =
     (if length (frame_buffer s) + 1 > max_buffer_size s
      then tl (frame_buffer s @ [e]) else frame_buffer s @ [e])"
  by (simp add: push_frame_def Let_def)

lemma push_frame_max [simp]: "max_buffer_size (push_frame s e) = max_buffer_size s"
  by (simp add: push_frame_def Let_def)

lemma push_frames_max [simp]: "max_buffer_size (push_frames s es) = max_buffer_size s"
  unfolding push_frames_def by (induction es arbitrary: s) simp_all

lemma push_frames_snoc: "push_frames s (es @ [e]) = push_frame (push_frames s es) e"
  by (simp add: push_frames_def)

lemma tl_drop_snoc:
  assumes "c \<le> length xs"
  shows "tl (drop (length xs - c) xs @ [e]) = drop (Suc (length xs) - c) (xs @ [e])"
proof (cases "c = 0")
  case True
  then show ?thesis by simp
next
  case False
  with assms have lt: "length xs - c < length xs" by arith
  have "tl (drop (length xs - c) xs @ [e]) = tl (drop (length xs - c) xs) @ [e]"
    using lt by (cases "drop (length xs - c) xs") simp_all
  also have "tl (drop (length xs - c) xs) = drop (Suc (length xs - c)) xs"
    by (simp add: drop_Suc drop_tl)
  also have "Suc (length xs - c) = Suc (length xs) - c"
    using assms by arith
  finally show ?thesis using assms False by simp
qed

lemma push_frames_from_empty:
  assumes "frame_buffer s = []"
  shows "frame_buffer (push_frames s es) = drop (length es - max_buffer_size s) es"
proof (induction es rule: rev_induct)
  case Nil
  show ?case using assms by (simp add: push_frames_def)
next
  case (snoc e es)
  let ?c = "max_buffer_size s"
  show ?case
  proof (cases "?c \<le> length es")
    case True
    then show ?thesis
      using snoc tl_drop_snoc [of ?c es e]
      by (simp add: push_frames_snoc push_frame_buffer)
  next
    case False
    then show ?thesis
      using snoc by (simp add: push_frames_snoc push_frame_buffer)
  qed
qed

lemma recording_iter_failed_read:
  "\<not> ret r \<Longrightarrow>
     recording_iter (s, n) r =
       Inr (s\<lparr>clock := clock s + latency r, console := console s @ [WarnFailedRead]\<rparr>, n)"
  by (simp add: recording_iter_def)

lemma push_frame_other_fields [simp]:
  "FPS (push_frame s e) = FPS s"
  "recording (push_frame s e) = recording s"
  "sleeps (push_frame s e) = sleeps s"
  "console (push_frame s e) = console s"
  "clock (push_frame s e) = clock s"
  "files (push_frame s e) = files s"
  "encoder_calls (push_frame s e) = encoder_calls s"
  by (simp_all add: push_frame_def Let_def)

lemma recording_iter_good_read:
  assumes "ret r" and "FPS s \<noteq> 0"
  shows "\<exists>s'. recording_iter (s, n) r = Inr (s', Suc n)
           \<and> frame_buffer s' = frame_buffer (push_frame s (frame r, clock s + latency r))
           \<and> max_buffer_size s' = max_buffer_size s
           \<and> FPS s' = FPS s \<and> recording s' = recording s
           \<and> sleeps s' = sleeps s @ [1 / of_nat (FPS s)]"
  using assms by (simp add: recording_iter_def Let_def push_frame_buffer)

lemma push_frames_same_buffer:
  "frame_buffer a = frame_buffer b \<Longrightarrow> max_buffer_size a = max_buffer_size b \<Longrightarrow>
     frame_buffer (push_frames a es) = frame_buffer (push_frames b es)"
  unfolding push_frames_def
  by (induction es arbitrary: a b) (simp_all add: push_frame_buffer)

text \<open>
  The loop pushes the frames of the successful reads, in order, and nothing else:
  whatever the timestamps, the frames held afterwards are those of some run of
  \<open>push_frames\<close> on the frames read.
\<close>

lemma loop_from_pushes:
  assumes "recording s" and "FPS s \<noteq> 0"
  shows "\<exists>s' n' ts. loop_from (s, n) rs = Inr (s', n')
           \<and> length ts = length (filter ret rs)
           \<and> frame_buffer s' =
               frame_buffer (push_frames s (zip (map frame (filter ret rs)) ts))
           \<and> max_buffer_size s' = max_buffer_size s"
  using assms
proof (induction rs arbitrary: s n)
  case Nil
  then show ?case by (simp add: push_frames_def)
next
  case (Cons r rs)
  show ?case
  proof (cases "ret r")
    case False
    let ?s1 = "s\<lparr>clock := clock s + latency r, console := console s @ [WarnFailedRead]\<rparr>"
    have step: "recording_iter (s, n) r = Inr (?s1, n)"
      using False by (rule recording_iter_failed_read)
    have "recording ?s1" and "FPS ?s1 \<noteq> 0"
      using Cons.prems by simp_all
    from Cons.IH [OF this, of n] obtain s' n' ts where
      "loop_from (?s1, n) rs = Inr (s', n')" "length ts = length (filter ret rs)"
      "frame_buffer s' = frame_buffer (push_frames ?s1 (zip (map frame (filter ret rs)) ts))"
      "max_buffer_size s' = max_buffer_size ?s1"
      by blast
    moreover have "frame_buffer (push_frames ?s1 es) = frame_buffer (push_frames s es)" for es
      by (rule push_frames_same_buffer) simp_all
    ultimately show ?thesis
      using False Cons.prems step by auto
  next
    case True
    from recording_iter_good_read [OF True Cons.prems(2), of n] obtain s1 where
      step: "recording_iter (s, n) r = Inr (s1, Suc n)"
      and buf: "frame_buffer s1 = frame_buffer (push_frame s (frame r, clock s + latency r))"
      and mx: "max_buffer_size s1 = max_buffer_size s"
      and rest: "FPS s1 = FPS s" "recording s1 = recording s"
      by blast
    have "recording s1" and "FPS s1 \<noteq> 0"
      using Cons.prems rest by simp_all
    from Cons.IH [OF this, of "Suc n"] obtain s' n' ts where
      run: "loop_from (s1, Suc n) rs = Inr (s', n')"
      and len: "length ts = length (filter ret rs)"
      and res: "frame_buffer s' =
                  frame_buffer (push_frames s1 (zip (map frame (filter ret rs)) ts))"
      and mx': "max_buffer_size s' = max_buffer_size s1"
      by blast
    let ?e = "(frame r, clock s + latency r)"
    have "frame_buffer s' =
            frame_buffer (push_frames (push_frame s ?e) (zip (map frame (filter ret rs)) ts))"
      using res push_frames_same_buffer [of s1 "push_frame s ?e"] buf mx by simp
    then have "frame_buffer s' =
            frame_buffer (push_frames s
              (zip (map frame (filter ret (r # rs))) ((clock s + latency r) # ts)))"
      using True by (simp add: push_frames_def)
    moreover have "length ((clock s + latency r) # ts) = length (filter ret (r # rs))"
      using True len by simp
    moreover have "loop_from (s, n) (r # rs) = Inr (s', n')"
      using Cons.prems step run by simp
    moreover have "max_buffer_size s' = max_buffer_size s"
      using mx mx' by simp
    ultimately show ?thesis
      by blast
  qed
qed

text \<open>
  Claim C1. Starting from the empty buffer, after \<open>N\<close> pushes the buffer holds
  \<open>min N C\<close> entries, where \<open>C\<close> is \<^verbatim>\<open>max_buffer_size\<close>, and they are the last \<open>C\<close>
  entries pushed, in the order pushed. One push appends at the tail and, when the
  length is then above \<open>C\<close>, removes the head. \<^verbatim>\<open>__init__\<close> sets \<open>C\<close> to
  \<^verbatim>\<open>BUFFER_SECONDS * FPS\<close>.
\<close>

theorem frame_buffer_holds_most_recent:
  "frame_buffer s = [] \<Longrightarrow>
     length (frame_buffer (push_frames s es)) = min (length es) (max_buffer_size s)
     \<and> frame_buffer (push_frames s es) = drop (length es - max_buffer_size s) es
     \<and> frame_buffer (push_frame t e) =
         (if length (frame_buffer t @ [e]) > max_buffer_size t
          then tl (frame_buffer t @ [e]) else frame_buffer t @ [e])
     \<and> max_buffer_size (init_recorder fs) =
         BUFFER_SECONDS (init_recorder fs) * FPS (init_recorder fs)"
  by (simp add: push_frames_from_empty push_frame_buffer init_recorder_def)

theorem frame_buffer_holds_most_recent_witness:
  "frame_buffer (init_recorder Map.empty :: nat recorder) = []
   \<and> length (frame_buffer (push_frames (init_recorder Map.empty)
         (replicate 1805 (7::nat, 0)))) = 1800
   \<and> frame_buffer (push_frames ((init_recorder Map.empty)\<lparr>max_buffer_size := 2\<rparr>)
         [(1::nat, 0), (2, 1), (3, 2)]) = [(2, 1), (3, 2)]"
  using frame_buffer_holds_most_recent
          [of "init_recorder Map.empty :: nat recorder" "replicate 1805 (7, 0)"
              "init_recorder Map.empty :: nat recorder" "(7, 0)"
              "Map.empty :: string \<rightharpoonup> nat list"]
        frame_buffer_holds_most_recent
          [of "(init_recorder Map.empty :: nat recorder)\<lparr>max_buffer_size := 2\<rparr>"
              "[(1, 0), (2, 1), (3, 2)]"
              "init_recorder Map.empty :: nat recorder" "(7, 0)"
              "Map.empty :: string \<rightharpoonup> nat list"]
  by (simp add: init_recorder_def)

text \<open>
  Claim C2. Push frames numbered \<open>1, 2, \<dots>, K\<close> into the empty buffer. If \<open>K\<close> is at
  least the capacity \<open>C\<close>, the snapshot taken then holds the frames numbered
  \<open>K - C + 1, \<dots>, K\<close>, in increasing order, so exactly those in the interval
  \<open>(K - C, K]\<close>.
\<close>

theorem snapshot_after_K_pushes:
  "frame_buffer s = [] \<Longrightarrow> max_buffer_size s \<le> K \<Longrightarrow>
     map fst (snapshot (push_frames s (map (\<lambda>k. (k, ts k)) [1..<Suc K])))
       = [Suc K - max_buffer_size s..<Suc K]"
proof -
  assume empty: "frame_buffer s = []" and le: "max_buffer_size s \<le> K"
  let ?c = "max_buffer_size s"
  have "map fst (snapshot (push_frames s (map (\<lambda>k. (k, ts k)) [1..<Suc K])))
          = map fst (drop (K - ?c) (map (\<lambda>k. (k, ts k)) [1..<Suc K]))"
    using push_frames_from_empty [OF empty] by (simp add: snapshot_def)
  also have "\<dots> = drop (K - ?c) [1..<Suc K]"
    by (simp add: drop_map comp_def del: upt_Suc)
  also have "\<dots> = [1 + (K - ?c)..<Suc K]"
    by (simp only: drop_upt)
  also have "1 + (K - ?c) = Suc K - ?c"
    using le by arith
  finally show ?thesis .
qed

theorem snapshot_after_K_pushes_witness:
  "map fst (snapshot (push_frames (init_recorder Map.empty)
      (map (\<lambda>k. (k, 0)) [1..<Suc 1800]))) = [1..<1801]
   \<and> map fst (snapshot (push_frames (init_recorder Map.empty)
      (map (\<lambda>k. (k, 0)) [1..<Suc 1801]))) = [2..<1802]
   \<and> length [2..<1802::nat] = 1800"
  using snapshot_after_K_pushes [of "init_recorder Map.empty" 1800 "\<lambda>k. 0"]
        snapshot_after_K_pushes [of "init_recorder Map.empty" 1801 "\<lambda>k. 0"]
  by (simp add: init_recorder_def)

section \<open>Exporting the buffer\<close>

lemma write_frames_fields [simp]:
  "FPS (fst (write_frames env p (s, k) es)) = FPS s"
  "console (fst (write_frames env p (s, k) es)) = console s"
  "frame_buffer (fst (write_frames env p (s, k) es)) = frame_buffer s"
  "max_buffer_size (fst (write_frames env p (s, k) es)) = max_buffer_size s"
  "recording (fst (write_frames env p (s, k) es)) = recording s"
  "camera (fst (write_frames env p (s, k) es)) = camera s"
  "gpio_active (fst (write_frames env p (s, k) es)) = gpio_active s"
  "sleeps (fst (write_frames env p (s, k) es)) = sleeps s"
  "clock (fst (write_frames env p (s, k) es)) = clock s"
  by (induction env p "(s, k)" es arbitrary: s k rule: write_frames.induct; simp)+

lemma write_frames_count: "snd (write_frames env p (s, k) es) = k + length es"
  by (induction env p "(s, k)" es arbitrary: s k rule: write_frames.induct) simp_all

lemma write_frames_calls:
  "encoder_calls (fst (write_frames env p (s, k) es)) =
     encoder_calls s @ map (\<lambda>e. EncWrite (fst e)) es"
  by (induction env p "(s, k)" es arbitrary: s k rule: write_frames.induct) simp_all

lemma write_frames_files:
  "files s p = Some c \<Longrightarrow>
     files (fst (write_frames env p (s, k) es)) = (files s)(p \<mapsto> c @ stored_frames env k es)"
  by (induction env p "(s, k)" es arbitrary: s k c rule: write_frames.induct)
     (auto simp: map_upd_triv)

lemma stored_frames_all:
  "(\<And>i. write_stores env i) \<Longrightarrow> stored_frames env k es = map fst es"
  by (induction es arbitrary: k) simp_all


lemma save_highlight_saves:
  assumes "frame_buffer s \<noteq> []" and "writer_opens env" and "FPS s \<noteq> 0"
  shows "\<exists>s'. save_highlight s env = Inr s'
    \<and> files s' = (files s)(highlight_filepath s (now_dt env) \<mapsto>
                    stored_frames env 0 (frame_buffer s))
    \<and> console s' = console s @
         [Saving (length (frame_buffer s)) (highlight_filename (now_dt env)),
          HighlightSaved (highlight_filename (now_dt env))
            (of_nat (length (frame_buffer s)) / of_nat (FPS s))
            (of_nat (encoded_size env (stored_frames env 0 (frame_buffer s))) / (1024 * 1024))
            (length (frame_buffer s))]
    \<and> encoder_calls s' = encoder_calls s @
         [EncOpen (highlight_filepath s (now_dt env)) (FPS s) (RESOLUTION s)] @
         map (\<lambda>e. EncWrite (fst e)) (frame_buffer s) @ [EncRelease]
    \<and> frame_buffer s' = frame_buffer s \<and> recording s' = recording s
    \<and> max_buffer_size s' = max_buffer_size s \<and> FPS s' = FPS s"
  using assms
  by (simp add: save_highlight_def Let_def snapshot_def highlight_filepath_def
        write_frames_files [where c = "[]"] write_frames_count write_frames_calls)

lemma save_highlight_empty:
  "frame_buffer s = [] \<Longrightarrow>
     save_highlight s env = Inr (s\<lparr>console := console s @ [ErrNoFrames]\<rparr>)"
  by (simp add: save_highlight_def)

lemma save_highlight_writer_closed:
  "frame_buffer s \<noteq> [] \<Longrightarrow> \<not> writer_opens env \<Longrightarrow>
     save_highlight s env =
       Inr (s\<lparr>console := console s @
                 [Saving (length (frame_buffer s)) (highlight_filename (now_dt env)), ErrWriter],
              encoder_calls := encoder_calls s @
                 [EncOpen (highlight_filepath s (now_dt env)) (FPS s) (RESOLUTION s)]\<rparr>)"
  by (simp add: save_highlight_def Let_def highlight_filepath_def)

lemma loop_from_failed_reads:
  assumes "recording s" and "\<forall>r \<in> set rs. \<not> ret r"
  shows "\<exists>s'. loop_from (s, n) rs = Inr (s', n)
     \<and> console s' = console s @ replicate (length rs) WarnFailedRead
     \<and> s'\<lparr>console := console s, clock := clock s\<rparr> = s"
  using assms
proof (induction rs arbitrary: s)
  case Nil
  then show ?case by simp
next
  case (Cons r rs)
  let ?s1 = "s\<lparr>clock := clock s + latency r, console := console s @ [WarnFailedRead]\<rparr>"
  have step: "recording_iter (s, n) r = Inr (?s1, n)"
    using Cons.prems by (simp add: recording_iter_failed_read)
  have "recording ?s1" and "\<forall>r \<in> set rs. \<not> ret r"
    using Cons.prems by simp_all
  from Cons.IH [OF this] obtain s' where
    run: "loop_from (?s1, n) rs = Inr (s', n)"
    and con: "console s' = console ?s1 @ replicate (length rs) WarnFailedRead"
    and rest: "s'\<lparr>console := console ?s1, clock := clock ?s1\<rparr> = ?s1"
    by blast
  have "loop_from (s, n) (r # rs) = Inr (s', n)"
    using Cons.prems step run by simp
  moreover have "console s' = console s @ replicate (length (r # rs)) WarnFailedRead"
    using con by (simp add: replicate_app_Cons_same)
  moreover have "s'\<lparr>console := console s, clock := clock s\<rparr> = s"
  proof -
    have "s'\<lparr>console := console s, clock := clock s\<rparr>
            = (s'\<lparr>console := console ?s1, clock := clock ?s1\<rparr>)
                \<lparr>console := console s, clock := clock s\<rparr>"
      by simp
    also have "\<dots> = s" by (simp only: rest) simp
    finally show ?thesis .
  qed
  ultimately show ?case by blast
qed

text \<open>
  Claim C5. An export that finds the buffer empty prints the error
  \<^verbatim>\<open>ERROR: No frames in buffer to save!\<close> and returns: no call is made on the video
  writer, no file is created or changed, and no exception is raised.
\<close>

theorem empty_buffer_export_reports_error:
  "frame_buffer s = [] \<Longrightarrow>
     (\<exists>s'. save_highlight s env = Inr s'
        \<and> console s' = console s @ [ErrNoFrames]
        \<and> encoder_calls s' = encoder_calls s
        \<and> files s' = files s
        \<and> frame_buffer s' = [])"
  by (simp add: save_highlight_empty)

theorem empty_buffer_export_reports_error_witness:
  "frame_buffer (init_recorder Map.empty :: nat recorder) = []
   \<and> map_sum id (\<lambda>s. (console s, encoder_calls s, dom (files s)))
        (save_highlight (init_recorder Map.empty :: nat recorder)
           \<lparr>now_dt = \<lparr>year = 2024, month = 1, day = 2, hour = 3, minute = 4, second = 5,
                       microsecond = 0\<rparr>,
            writer_opens = True, write_stores = (\<lambda>i. True), encoded_size = length\<rparr>)
       = Inr ([GpioSetupComplete, ErrNoFrames], [], {})"
  using empty_buffer_export_reports_error
          [of "init_recorder Map.empty :: nat recorder"
              "\<lparr>now_dt = \<lparr>year = 2024, month = 1, day = 2, hour = 3, minute = 4, second = 5,
                       microsecond = 0\<rparr>,
                writer_opens = True, write_stores = (\<lambda>i. True), encoded_size = length\<rparr>"]
  by (auto simp: init_recorder_def)

text \<open>
  Claim C3, as the code has it. The file name is \<^verbatim>\<open>highlight_<YYYYMMDD>_<HHMMSS>.avi\<close>,
  computed from the wall-clock second alone, with no counter: two exports whose times
  fall in the same second get the same name, and the later export writes its frames
  under the path of the earlier one, whatever that file held.
\<close>

theorem export_name_from_second_only:
  assumes "year d1 = year d2" and "month d1 = month d2" and "day d1 = day d2"
    and "hour d1 = hour d2" and "minute d1 = minute d2" and "second d1 = second d2"
    and "frame_buffer s \<noteq> []" and "writer_opens env" and "FPS s \<noteq> 0"
    and "now_dt env = d2"
  shows "highlight_filename d1 = highlight_filename d2
    \<and> highlight_filename d2 =
        ''highlight_'' @ pad4 (year d2) @ pad2 (month d2) @ pad2 (day d2) @ ''_'' @
        pad2 (hour d2) @ pad2 (minute d2) @ pad2 (second d2) @ ''.avi''
    \<and> (\<exists>s'. save_highlight s env = Inr s'
          \<and> files s' (highlight_filepath s d1) = Some (stored_frames env 0 (frame_buffer s)))"
proof -
  have name: "highlight_filename d1 = highlight_filename d2"
    using assms(1-6) by (simp add: highlight_filename_def strftime_stamp_def)
  have path: "highlight_filepath s d1 = highlight_filepath s (now_dt env)"
    using name assms(10) by (simp add: highlight_filepath_def)
  from save_highlight_saves [OF assms(7-9)] obtain s' where
    "save_highlight s env = Inr s'"
    "files s' = (files s)(highlight_filepath s (now_dt env) \<mapsto>
                   stored_frames env 0 (frame_buffer s))"
    by blast
  then have "\<exists>s'. save_highlight s env = Inr s'
          \<and> files s' (highlight_filepath s d1) = Some (stored_frames env 0 (frame_buffer s))"
    using path by simp
  then show ?thesis
    using name by (simp add: highlight_filename_def strftime_stamp_def)
qed

theorem export_name_from_second_only_witness:
  "highlight_filename
      \<lparr>year = 2024, month = 1, day = 2, hour = 3, minute = 4, second = 5, microsecond = 0\<rparr>
     = ''highlight_20240102_030405.avi''
   \<and> map_sum id (\<lambda>s. files s
          ''/home/enigma/sports-recorder/highlights/highlight_20240102_030405.avi'')
        (save_highlight
           (push_frames
              (init_recorder
                 [''/home/enigma/sports-recorder/highlights/highlight_20240102_030405.avi''
                    \<mapsto> [10::nat]])
              [(10, 0), (20, 1)])
           \<lparr>now_dt = \<lparr>year = 2024, month = 1, day = 2, hour = 3, minute = 4, second = 5,
                       microsecond = 600000\<rparr>,
            writer_opens = True, write_stores = (\<lambda>i. True), encoded_size = length\<rparr>)
       = Inr (Some [10, 20])"
  using export_name_from_second_only
    [of "\<lparr>year = 2024, month = 1, day = 2, hour = 3, minute = 4, second = 5, microsecond = 0\<rparr>"
        "\<lparr>year = 2024, month = 1, day = 2, hour = 3, minute = 4, second = 5,
          microsecond = 600000\<rparr>"
        "push_frames
           (init_recorder
              [''/home/enigma/sports-recorder/highlights/highlight_20240102_030405.avi''
                 \<mapsto> [10::nat]])
           [(10, 0), (20, 1)]"
        "\<lparr>now_dt = \<lparr>year = 2024, month = 1, day = 2, hour = 3, minute = 4, second = 5,
                    microsecond = 600000\<rparr>,
          writer_opens = True, write_stores = (\<lambda>i. True), encoded_size = length\<rparr>"]
  by (auto simp: highlight_filename_def strftime_stamp_def pad2_def pad4_def digit_def
        highlight_filepath_def path_join_def push_frames_def push_frame_def init_recorder_def)

text \<open>
  The claim as the specification states it fails: two exports 0.6 seconds apart, in the
  same second, produce one file name, and after the second export the directory holds
  one file, with the second export's frames.
\<close>

theorem same_second_exports_share_file_counterexample:
  "highlight_filename
      \<lparr>year = 2024, month = 1, day = 2, hour = 3, minute = 4, second = 5, microsecond = 0\<rparr>
     = highlight_filename
      \<lparr>year = 2024, month = 1, day = 2, hour = 3, minute = 4, second = 5,
        microsecond = 600000\<rparr>
   \<and> map_sum id (\<lambda>s. files s
          ''/home/enigma/sports-recorder/highlights/highlight_20240102_030405.avi'')
        (save_highlight (push_frames (init_recorder Map.empty) [(10::nat, 0)])
           \<lparr>now_dt = \<lparr>year = 2024, month = 1, day = 2, hour = 3, minute = 4, second = 5,
                       microsecond = 0\<rparr>,
            writer_opens = True, write_stores = (\<lambda>i. True), encoded_size = length\<rparr>)
       = Inr (Some [10])
   \<and> map_sum id (\<lambda>s. (files s
          ''/home/enigma/sports-recorder/highlights/highlight_20240102_030405.avi'',
          dom (files s)))
        (and_then
           (save_highlight (push_frames (init_recorder Map.empty) [(10::nat, 0)])
              \<lparr>now_dt = \<lparr>year = 2024, month = 1, day = 2, hour = 3, minute = 4, second = 5,
                          microsecond = 0\<rparr>,
               writer_opens = True, write_stores = (\<lambda>i. True), encoded_size = length\<rparr>)
           (\<lambda>s. save_highlight (push_frame s (20, 1))
              \<lparr>now_dt = \<lparr>year = 2024, month = 1, day = 2, hour = 3, minute = 4, second = 5,
                          microsecond = 600000\<rparr>,
               writer_opens = True, write_stores = (\<lambda>i. True), encoded_size = length\<rparr>))
       = Inr (Some [10, 20],
              {''/home/enigma/sports-recorder/highlights/highlight_20240102_030405.avi''})"
  by (simp add: highlight_filename_def strftime_stamp_def pad2_def pad4_def digit_def
        save_highlight_def Let_def snapshot_def path_join_def and_then_def
        push_frames_def push_frame_def init_recorder_def)

section \<open>Failed reads\<close>

text \<open>
  Claim C4, as the code has it. Every failed read is handled in the same way: the
  warning is printed, nothing is pushed, nothing is slept, and the loop goes on to
  the next read. There is no second class of failure and no exit from the loop on a
  failure. While the reads keep failing the buffer stays as it was and no exception is
  raised, and an export of the frames still in the buffer then writes them all to the
  highlight file.
\<close>

theorem failed_reads_keep_loop_running:
  assumes "recording s" and "\<forall>r \<in> set rs. \<not> ret r"
    and "frame_buffer s \<noteq> []" and "writer_opens env" and "FPS s \<noteq> 0"
  shows "\<exists>s' s''. recording_loop s rs = Inr (s', 0)
    \<and> recording s'
    \<and> frame_buffer s' = frame_buffer s
    \<and> sleeps s' = sleeps s
    \<and> console s' = console s @ replicate (length rs) WarnFailedRead
    \<and> save_highlight s' env = Inr s''
    \<and> files s'' (highlight_filepath s (now_dt env)) =
         Some (stored_frames env 0 (frame_buffer s))
    \<and> encoder_calls s'' = encoder_calls s @
         [EncOpen (highlight_filepath s (now_dt env)) (FPS s) (RESOLUTION s)] @
         map (\<lambda>e. EncWrite (fst e)) (frame_buffer s) @ [EncRelease]"
proof -
  from loop_from_failed_reads [OF assms(1,2), of 0] obtain s' where
    run: "recording_loop s rs = Inr (s', 0)"
    and con: "console s' = console s @ replicate (length rs) WarnFailedRead"
    and rest: "s'\<lparr>console := console s, clock := clock s\<rparr> = s"
    by (auto simp: recording_loop_def)
  have same: "recording s' = recording s" "frame_buffer s' = frame_buffer s"
    "sleeps s' = sleeps s" "FPS s' = FPS s" "files s' = files s"
    "encoder_calls s' = encoder_calls s" "RESOLUTION s' = RESOLUTION s"
    "HIGHLIGHTS_DIR s' = HIGHLIGHTS_DIR s"
    by (subst rest [symmetric], simp)+
  have "frame_buffer s' \<noteq> []" and "FPS s' \<noteq> 0"
    using assms same by simp_all
  from save_highlight_saves [OF this(1) assms(4) this(2)] obtain s'' where
    "save_highlight s' env = Inr s''"
    "files s'' = (files s')(highlight_filepath s' (now_dt env) \<mapsto>
                    stored_frames env 0 (frame_buffer s'))"
    "encoder_calls s'' = encoder_calls s' @
         [EncOpen (highlight_filepath s' (now_dt env)) (FPS s') (RESOLUTION s')] @
         map (\<lambda>e. EncWrite (fst e)) (frame_buffer s') @ [EncRelease]"
    by blast
  then show ?thesis
    using run con same assms(1) by (simp add: highlight_filepath_def)
qed

theorem failed_reads_keep_loop_running_witness:
  "map_sum id (\<lambda>sn. (recording (fst sn), map fst (frame_buffer (fst sn)), console (fst sn)))
     (recording_loop
        ((push_frames (init_recorder Map.empty) [(10::nat, 0), (20, 1)])\<lparr>recording := True\<rparr>)
        [\<lparr>ret = False, frame = 0, latency = 1\<rparr>, \<lparr>ret = False, frame = 0, latency = 1\<rparr>])
     = Inr (True, [10, 20], [GpioSetupComplete, WarnFailedRead, WarnFailedRead])
   \<and> map_sum id (\<lambda>s. files s
          ''/home/enigma/sports-recorder/highlights/highlight_20240102_030405.avi'')
        (and_then
           (recording_loop
              ((push_frames (init_recorder Map.empty) [(10::nat, 0), (20, 1)])
                 \<lparr>recording := True\<rparr>)
              [\<lparr>ret = False, frame = 0, latency = 1\<rparr>, \<lparr>ret = False, frame = 0, latency = 1\<rparr>])
           (\<lambda>sn. save_highlight (fst sn)
              \<lparr>now_dt = \<lparr>year = 2024, month = 1, day = 2, hour = 3, minute = 4, second = 5,
                          microsecond = 0\<rparr>,
               writer_opens = True, write_stores = (\<lambda>i. True), encoded_size = length\<rparr>))
       = Inr (Some [10, 20])"
  using failed_reads_keep_loop_running
    [of "(push_frames (init_recorder Map.empty) [(10::nat, 0), (20, 1)])\<lparr>recording := True\<rparr>"
        "[\<lparr>ret = False, frame = 0, latency = 1\<rparr>, \<lparr>ret = False, frame = 0, latency = 1\<rparr>]"
        "\<lparr>now_dt = \<lparr>year = 2024, month = 1, day = 2, hour = 3, minute = 4, second = 5,
                    microsecond = 0\<rparr>,
          writer_opens = True, write_stores = (\<lambda>i. True), encoded_size = length\<rparr>"]
  by (auto simp: and_then_def highlight_filename_def strftime_stamp_def pad2_def pad4_def
        digit_def highlight_filepath_def path_join_def push_frames_def push_frame_def
        init_recorder_def)

text \<open>
  The claim as the specification states it fails: with a camera that fails at every
  read, the loop has not left after three reads. It took each of them, printed three
  warnings, and the flag \<^verbatim>\<open>recording\<close> is still set.
\<close>

theorem permanent_failure_never_exits_counterexample:
  "map_sum id (\<lambda>sn. (recording (fst sn), console (fst sn), frame_buffer (fst sn)))
     (recording_loop ((init_recorder Map.empty :: nat recorder)\<lparr>recording := True\<rparr>)
        [\<lparr>ret = False, frame = 0, latency = 1\<rparr>, \<lparr>ret = False, frame = 0, latency = 1\<rparr>,
         \<lparr>ret = False, frame = 0, latency = 1\<rparr>])
     = Inr (True, [GpioSetupComplete, WarnFailedRead, WarnFailedRead, WarnFailedRead], [])"
  by (simp add: recording_loop_def recording_iter_def init_recorder_def)

section \<open>Pacing of the loop\<close>

text \<open>
  Claim C6, as the code has it. An iteration whose read succeeds sleeps one full
  period \<^verbatim>\<open>1 / FPS\<close> after the push, whatever time the read took, so the iteration
  lasts the time of the read plus one period. An iteration whose read fails does not
  sleep. The time an iteration took is not measured anywhere.
\<close>

theorem iteration_sleeps_full_period:
  "FPS s \<noteq> 0 \<Longrightarrow>
     (\<exists>s' n'. recording_iter (s, n) r = Inr (s', n')
        \<and> sleeps s' = (if ret r then sleeps s @ [1 / of_nat (FPS s)] else sleeps s)
        \<and> clock s' = (if ret r then clock s + latency r + 1 / of_nat (FPS s)
                       else clock s + latency r))"
  by (simp add: recording_iter_def Let_def)

theorem iteration_sleeps_full_period_witness:
  "map_sum id (\<lambda>sn. (sleeps (fst sn), clock (fst sn)))
     (recording_iter ((init_recorder Map.empty)\<lparr>recording := True\<rparr>, 0)
        \<lparr>ret = True, frame = 7::nat, latency = 1 / 100\<rparr>)
     = Inr ([1 / 15], 23 / 300)
   \<and> map_sum id (\<lambda>sn. (sleeps (fst sn), clock (fst sn)))
     (recording_iter ((init_recorder Map.empty)\<lparr>recording := True\<rparr>, 0)
        \<lparr>ret = False, frame = 7::nat, latency = 1 / 100\<rparr>)
     = Inr ([], 1 / 100)"
  using iteration_sleeps_full_period
    [of "(init_recorder Map.empty)\<lparr>recording := True\<rparr>" 0
        "\<lparr>ret = True, frame = 7::nat, latency = 1 / 100\<rparr>"]
    iteration_sleeps_full_period
    [of "(init_recorder Map.empty)\<lparr>recording := True\<rparr>" 0
        "\<lparr>ret = False, frame = 7::nat, latency = 1 / 100\<rparr>"]
  by (auto simp: init_recorder_def)

text \<open>
  The claim as the specification states it fails: at 15 frames per second a read that
  took a whole second, fifteen periods, is still followed by a sleep of one period.
\<close>

theorem slow_iteration_still_sleeps_counterexample:
  "(1::rat) / of_nat (FPS (init_recorder Map.empty :: nat recorder)) \<le> 1
   \<and> map_sum id (\<lambda>sn. (sleeps (fst sn), clock (fst sn)))
       (recording_iter ((init_recorder Map.empty)\<lparr>recording := True\<rparr>, 0)
          \<lparr>ret = True, frame = 7::nat, latency = 1\<rparr>)
       = Inr ([1 / 15], 16 / 15)"
  by (simp add: recording_iter_def Let_def push_frame_def init_recorder_def)

section \<open>Failures of the video writer\<close>

text \<open>
  Claim C7, as the code has it. If the video writer did not open, the export prints
  \<^verbatim>\<open>ERROR: Could not open video writer!\<close>, makes no call of \<^verbatim>\<open>write\<close> or
  \<^verbatim>\<open>release\<close>, and returns without an exception, the buffer and the recording flag
  as they were. If the writer opened, it was opened on the final name of the file: the
  file under that name holds the frames the writer stored, and the export reports the
  highlight as saved with every frame of the buffer counted, whether or not each
  \<^verbatim>\<open>write\<close> stored its frame.
\<close>

theorem encoder_failure_handling:
  "(frame_buffer s \<noteq> [] \<and> \<not> writer_opens env \<longrightarrow>
      (\<exists>s'. save_highlight s env = Inr s'
         \<and> console s' = console s @
              [Saving (length (frame_buffer s)) (highlight_filename (now_dt env)), ErrWriter]
         \<and> encoder_calls s' = encoder_calls s @
              [EncOpen (highlight_filepath s (now_dt env)) (FPS s) (RESOLUTION s)]
         \<and> frame_buffer s' = frame_buffer s
         \<and> recording s' = recording s))
   \<and> (frame_buffer s \<noteq> [] \<and> writer_opens env \<and> FPS s \<noteq> 0 \<longrightarrow>
      (\<exists>s'. save_highlight s env = Inr s'
         \<and> files s' (highlight_filepath s (now_dt env)) =
              Some (stored_frames env 0 (frame_buffer s))
         \<and> last (console s') =
              HighlightSaved (highlight_filename (now_dt env))
                (of_nat (length (frame_buffer s)) / of_nat (FPS s))
                (of_nat (encoded_size env (stored_frames env 0 (frame_buffer s)))
                   / (1024 * 1024))
                (length (frame_buffer s))
         \<and> frame_buffer s' = frame_buffer s
         \<and> recording s' = recording s))"
proof (intro conjI impI)
  assume "frame_buffer s \<noteq> [] \<and> \<not> writer_opens env"
  then show "\<exists>s'. save_highlight s env = Inr s'
         \<and> console s' = console s @
              [Saving (length (frame_buffer s)) (highlight_filename (now_dt env)), ErrWriter]
         \<and> encoder_calls s' = encoder_calls s @
              [EncOpen (highlight_filepath s (now_dt env)) (FPS s) (RESOLUTION s)]
         \<and> frame_buffer s' = frame_buffer s
         \<and> recording s' = recording s"
    by (simp add: save_highlight_writer_closed)
next
  assume "frame_buffer s \<noteq> [] \<and> writer_opens env \<and> FPS s \<noteq> 0"
  then have a: "frame_buffer s \<noteq> []" "writer_opens env" "FPS s \<noteq> 0"
    by simp_all
  from save_highlight_saves [OF a] obtain s' where
    "save_highlight s env = Inr s'"
    "files s' = (files s)(highlight_filepath s (now_dt env) \<mapsto>
                    stored_frames env 0 (frame_buffer s))"
    "console s' = console s @
         [Saving (length (frame_buffer s)) (highlight_filename (now_dt env)),
          HighlightSaved (highlight_filename (now_dt env))
            (of_nat (length (frame_buffer s)) / of_nat (FPS s))
            (of_nat (encoded_size env (stored_frames env 0 (frame_buffer s))) / (1024 * 1024))
            (length (frame_buffer s))]"
    "frame_buffer s' = frame_buffer s" "recording s' = recording s"
    by blast
  then show "\<exists>s'. save_highlight s env = Inr s'
         \<and> files s' (highlight_filepath s (now_dt env)) =
              Some (stored_frames env 0 (frame_buffer s))
         \<and> last (console s') =
              HighlightSaved (highlight_filename (now_dt env))
                (of_nat (length (frame_buffer s)) / of_nat (FPS s))
                (of_nat (encoded_size env (stored_frames env 0 (frame_buffer s)))
                   / (1024 * 1024))
                (length (frame_buffer s))
         \<and> frame_buffer s' = frame_buffer s
         \<and> recording s' = recording s"
    by simp
qed

theorem encoder_failure_handling_witness:
  "map_sum id (\<lambda>s. (last (console s), encoder_calls s, recording s))
     (save_highlight
        ((push_frames (init_recorder Map.empty) [(10::nat, 0), (20, 1)])\<lparr>recording := True\<rparr>)
        \<lparr>now_dt = \<lparr>year = 2024, month = 1, day = 2, hour = 3, minute = 4, second = 5,
                    microsecond = 0\<rparr>,
         writer_opens = False, write_stores = (\<lambda>i. True), encoded_size = length\<rparr>)
     = Inr (ErrWriter,
            [EncOpen ''/home/enigma/sports-recorder/highlights/highlight_20240102_030405.avi''
               15 (640, 480)],
            True)
   \<and> map_sum id (\<lambda>s. (last (console s), recording s,
        files s ''/home/enigma/sports-recorder/highlights/highlight_20240102_030405.avi''))
     (save_highlight
        ((push_frames (init_recorder Map.empty) [(10::nat, 0), (20, 1)])\<lparr>recording := True\<rparr>)
        \<lparr>now_dt = \<lparr>year = 2024, month = 1, day = 2, hour = 3, minute = 4, second = 5,
                    microsecond = 0\<rparr>,
         writer_opens = True, write_stores = (\<lambda>i. True), encoded_size = length\<rparr>)
     = Inr (HighlightSaved ''highlight_20240102_030405.avi'' (2 / 15) (2 / 1048576) 2, True,
            Some [10, 20])"
  using encoder_failure_handling
    [of "(push_frames (init_recorder Map.empty) [(10::nat, 0), (20, 1)])\<lparr>recording := True\<rparr>"
        "\<lparr>now_dt = \<lparr>year = 2024, month = 1, day = 2, hour = 3, minute = 4, second = 5,
                    microsecond = 0\<rparr>,
          writer_opens = False, write_stores = (\<lambda>i. True), encoded_size = length\<rparr>"]
    encoder_failure_handling
    [of "(push_frames (init_recorder Map.empty) [(10::nat, 0), (20, 1)])\<lparr>recording := True\<rparr>"
        "\<lparr>now_dt = \<lparr>year = 2024, month = 1, day = 2, hour = 3, minute = 4, second = 5,
                    microsecond = 0\<rparr>,
          writer_opens = True, write_stores = (\<lambda>i. True), encoded_size = length\<rparr>"]
  by (auto simp: highlight_filename_def strftime_stamp_def pad2_def pad4_def
        digit_def highlight_filepath_def path_join_def push_frames_def push_frame_def
        init_recorder_def)

text \<open>
  The claim as the specification states it fails: a writer that opens and stores only
  the first of three frames leaves a file of one frame under the final name, and the
  export reports three frames saved, not an error.
\<close>

theorem failed_write_leaves_partial_file_counterexample:
  "map_sum id (\<lambda>s. (last (console s),
        files s ''/home/enigma/sports-recorder/highlights/highlight_20240102_030405.avi''))
     (save_highlight
        (push_frames (init_recorder Map.empty) [(10::nat, 0), (20, 1), (30, 2)])
        \<lparr>now_dt = \<lparr>year = 2024, month = 1, day = 2, hour = 3, minute = 4, second = 5,
                    microsecond = 0\<rparr>,
         writer_opens = True, write_stores = (\<lambda>i. i < 1), encoded_size = length\<rparr>)
     = Inr (HighlightSaved ''highlight_20240102_030405.avi'' (1 / 5) (1 / 1048576) 3,
            Some [10])"
  by (simp add: highlight_filename_def strftime_stamp_def pad2_def pad4_def digit_def
        save_highlight_def Let_def snapshot_def path_join_def
        push_frames_def push_frame_def init_recorder_def)

section \<open>Duration of a highlight\<close>

text \<open>
  Claim C9. A successful export reports the number of frames \<open>F\<close> it passed to the
  writer, which is the length of the snapshot, and the duration \<open>F / FPS\<close>; the
  duration multiplied by the frame rate gives \<open>F\<close> back.
\<close>

theorem reported_duration_is_frames_over_rate:
  "frame_buffer s \<noteq> [] \<Longrightarrow> writer_opens env \<Longrightarrow> FPS s \<noteq> 0 \<Longrightarrow>
     (\<exists>s'. save_highlight s env = Inr s'
        \<and> last (console s') =
            HighlightSaved (highlight_filename (now_dt env))
              (of_nat (length (snapshot s)) / of_nat (FPS s))
              (of_nat (encoded_size env (stored_frames env 0 (snapshot s))) / (1024 * 1024))
              (length (snapshot s))
        \<and> encoder_calls s' = encoder_calls s @
             [EncOpen (highlight_filepath s (now_dt env)) (FPS s) (RESOLUTION s)] @
             map (\<lambda>e. EncWrite (fst e)) (snapshot s) @ [EncRelease]
        \<and> (of_nat (length (snapshot s)) / of_nat (FPS s)) * of_nat (FPS s)
            = (of_nat (length (snapshot s)) :: rat))"
proof -
  assume a: "frame_buffer s \<noteq> []" "writer_opens env" "FPS s \<noteq> 0"
  from save_highlight_saves [OF a] obtain s' where
    "save_highlight s env = Inr s'"
    "console s' = console s @
         [Saving (length (frame_buffer s)) (highlight_filename (now_dt env)),
          HighlightSaved (highlight_filename (now_dt env))
            (of_nat (length (frame_buffer s)) / of_nat (FPS s))
            (of_nat (encoded_size env (stored_frames env 0 (frame_buffer s))) / (1024 * 1024))
            (length (frame_buffer s))]"
    "encoder_calls s' = encoder_calls s @
         [EncOpen (highlight_filepath s (now_dt env)) (FPS s) (RESOLUTION s)] @
         map (\<lambda>e. EncWrite (fst e)) (frame_buffer s) @ [EncRelease]"
    by blast
  then show ?thesis
    using a(3) by (simp add: snapshot_def)
qed

theorem reported_duration_is_frames_over_rate_witness:
  "map_sum id (\<lambda>s. last (console s))
     (save_highlight
        (push_frames (init_recorder Map.empty) [(7::nat, 0), (8, 1), (9, 2)])
        \<lparr>now_dt = \<lparr>year = 2024, month = 1, day = 2, hour = 3, minute = 4, second = 5,
                    microsecond = 0\<rparr>,
         writer_opens = True, write_stores = (\<lambda>i. True), encoded_size = (\<lambda>fs. 2097152)\<rparr>)
     = Inr (HighlightSaved ''highlight_20240102_030405.avi'' (3 / 15) 2 3)"
  using reported_duration_is_frames_over_rate
    [of "push_frames (init_recorder Map.empty) [(7::nat, 0), (8, 1), (9, 2)]"
        "\<lparr>now_dt = \<lparr>year = 2024, month = 1, day = 2, hour = 3, minute = 4, second = 5,
                    microsecond = 0\<rparr>,
          writer_opens = True, write_stores = (\<lambda>i. True), encoded_size = (\<lambda>fs. 2097152)\<rparr>"]
  by (auto simp: highlight_filename_def strftime_stamp_def pad2_def pad4_def
        digit_def snapshot_def push_frames_def push_frame_def init_recorder_def)

section \<open>Stopping\<close>

text \<open>
  Claim C10. \<^verbatim>\<open>stop_recording\<close> clears the recording flag, releases the camera if
  there is one, cleans up GPIO and prints two lines; the frame buffer, its capacity and
  the files are as before, and an export after the stop writes the frames that were
  buffered before it.
\<close>

theorem stop_recording_keeps_buffer:
  "stop_recording s =
     s\<lparr>recording := False,
       camera := (case camera s of None \<Rightarrow> None | Some c \<Rightarrow> Some False),
       gpio_active := False,
       console := console s @ [StoppingRecording, RecordingStopped]\<rparr>
   \<and> frame_buffer (stop_recording s) = frame_buffer s
   \<and> max_buffer_size (stop_recording s) = max_buffer_size s
   \<and> files (stop_recording s) = files s
   \<and> (frame_buffer s \<noteq> [] \<and> writer_opens env \<and> FPS s \<noteq> 0 \<longrightarrow>
        (\<exists>s'. save_highlight (stop_recording s) env = Inr s'
           \<and> files s' = (files s)(highlight_filepath s (now_dt env) \<mapsto>
                           stored_frames env 0 (frame_buffer s))
           \<and> encoder_calls s' = encoder_calls s @
                [EncOpen (highlight_filepath s (now_dt env)) (FPS s) (RESOLUTION s)] @
                map (\<lambda>e. EncWrite (fst e)) (frame_buffer s) @ [EncRelease]))"
proof -
  have eq: "stop_recording s =
     s\<lparr>recording := False,
       camera := (case camera s of None \<Rightarrow> None | Some c \<Rightarrow> Some False),
       gpio_active := False,
       console := console s @ [StoppingRecording, RecordingStopped]\<rparr>"
    by (cases "camera s") (simp_all add: stop_recording_def Let_def)
  have same: "frame_buffer (stop_recording s) = frame_buffer s"
    "max_buffer_size (stop_recording s) = max_buffer_size s"
    "files (stop_recording s) = files s" "FPS (stop_recording s) = FPS s"
    "encoder_calls (stop_recording s) = encoder_calls s"
    "RESOLUTION (stop_recording s) = RESOLUTION s"
    "HIGHLIGHTS_DIR (stop_recording s) = HIGHLIGHTS_DIR s"
    by (simp_all add: eq)
  have "\<exists>s'. save_highlight (stop_recording s) env = Inr s'
           \<and> files s' = (files s)(highlight_filepath s (now_dt env) \<mapsto>
                           stored_frames env 0 (frame_buffer s))
           \<and> encoder_calls s' = encoder_calls s @
                [EncOpen (highlight_filepath s (now_dt env)) (FPS s) (RESOLUTION s)] @
                map (\<lambda>e. EncWrite (fst e)) (frame_buffer s) @ [EncRelease]"
    if a: "frame_buffer s \<noteq> []" "writer_opens env" "FPS s \<noteq> 0"
  proof -
    have "frame_buffer (stop_recording s) \<noteq> []" and "FPS (stop_recording s) \<noteq> 0"
      using a same by simp_all
    from save_highlight_saves [OF this(1) a(2) this(2)] show ?thesis
      using same by (auto simp: highlight_filepath_def)
  qed
  then show ?thesis
    using eq same by blast
qed

theorem stop_recording_keeps_buffer_witness:
  "map fst (frame_buffer (stop_recording
      ((push_frames (init_recorder Map.empty) [(10::nat, 0), (20, 1)])
         \<lparr>recording := True, camera := Some True\<rparr>))) = [10, 20]
   \<and> recording (stop_recording
      ((push_frames (init_recorder Map.empty) [(10::nat, 0), (20, 1)])
         \<lparr>recording := True, camera := Some True\<rparr>)) = False
   \<and> camera (stop_recording
      ((push_frames (init_recorder Map.empty) [(10::nat, 0), (20, 1)])
         \<lparr>recording := True, camera := Some True\<rparr>)) = Some False
   \<and> map_sum id (\<lambda>s. files s
          ''/home/enigma/sports-recorder/highlights/highlight_20240102_030405.avi'')
        (save_highlight
           (stop_recording
              ((push_frames (init_recorder Map.empty) [(10::nat, 0), (20, 1)])
                 \<lparr>recording := True, camera := Some True\<rparr>))
           \<lparr>now_dt = \<lparr>year = 2024, month = 1, day = 2, hour = 3, minute = 4, second = 5,
                       microsecond = 0\<rparr>,
            writer_opens = True, write_stores = (\<lambda>i. True), encoded_size = length\<rparr>)
       = Inr (Some [10, 20])"
  using stop_recording_keeps_buffer
    [of "(push_frames (init_recorder Map.empty) [(10::nat, 0), (20, 1)])
           \<lparr>recording := True, camera := Some True\<rparr>"
        "\<lparr>now_dt = \<lparr>year = 2024, month = 1, day = 2, hour = 3, minute = 4, second = 5,
                    microsecond = 0\<rparr>,
          writer_opens = True, write_stores = (\<lambda>i. True), encoded_size = length\<rparr>"]
  by (auto simp: highlight_filename_def strftime_stamp_def pad2_def pad4_def
        digit_def highlight_filepath_def path_join_def push_frames_def push_frame_def
        init_recorder_def)

end
